theory Spec2Isabelle
  imports Complex_Main "HOL-Library.Word" "HOL-Library.Sublist"
begin

section \<open>JavaScript values the task model computes with\<close>

text \<open>
  A JavaScript string is a sequence of UTF-16 code units. \<open>String.prototype.trim\<close>
  removes the WhiteSpace and LineTerminator code points of ECMAScript from both ends:
  TAB, LF, VT, FF, CR, SP, NBSP, the Unicode space separators (U+1680, U+2000 to U+200A,
  U+202F, U+205F, U+3000), LS, PS and U+FEFF.
\<close>

type_synonym code_unit = "16 word"
type_synonym js_string = "code_unit list"

definition isWhiteSpace :: "code_unit \<Rightarrow> bool" where
  "isWhiteSpace c =
     (c \<in> set [0x0009, 0x000A, 0x000B, 0x000C, 0x000D, 0x0020, 0x00A0, 0x1680,
                0x2028, 0x2029, 0x202F, 0x205F, 0x3000, 0xFEFF]
      \<or> (0x2000 \<le> c \<and> c \<le> 0x200A))"

definition trim :: "js_string \<Rightarrow> js_string" where
  "trim s = rev (dropWhile isWhiteSpace (rev (dropWhile isWhiteSpace s)))"

text \<open>ASCII text as code units, for writing examples.\<close>

definition ascii :: "string \<Rightarrow> js_string" where
  "ascii s = map of_char s"

text \<open>
  The \<open>deadline\<close> argument is one of the primitive values \<open>undefined\<close>, \<open>null\<close>, a
  boolean, a number or a string (the page passes the string of its input field, or
  \<open>null\<close>); objects, symbols and big integers are left out. A finite number is a
  rational; \<open>0\<close> stands for both zeros.
\<close>

datatype js_number = NaN | PosInfinity | NegInfinity | Finite rat

datatype js_value =
  JSUndefined | JSNull | JSBoolean bool | JSNumber js_number | JSString js_string

text \<open>Truthiness, as the conditional \<open>deadline ? ... : null\<close> tests it.\<close>

fun ToBoolean :: "js_value \<Rightarrow> bool" where
  "ToBoolean JSUndefined = False"
| "ToBoolean JSNull = False"
| "ToBoolean (JSBoolean b) = b"
| "ToBoolean (JSNumber NaN) = False"
| "ToBoolean (JSNumber (Finite q)) = (q \<noteq> 0)"
| "ToBoolean (JSNumber PosInfinity) = True"
| "ToBoolean (JSNumber NegInfinity) = True"
| "ToBoolean (JSString s) = (s \<noteq> [])"

text \<open>
  A \<open>Date\<close> object holds a time value: a whole number of milliseconds since the epoch,
  or NaN (an invalid date). \<open>TimeClip\<close> is the conversion of a number to a time value.
\<close>

datatype date = Date int | InvalidDate

fun TimeClip :: "js_number \<Rightarrow> date" where
  "TimeClip (Finite q) =
     (if \<bar>q\<bar> > 8640000000000000 then InvalidDate
      else Date (if q < 0 then \<lceil>q\<rceil> else \<lfloor>q\<rfloor>))"
| "TimeClip NaN = InvalidDate"
| "TimeClip PosInfinity = InvalidDate"
| "TimeClip NegInfinity = InvalidDate"

text \<open>
  \<open>new Date(v)\<close> with one argument. A string goes through \<open>Date.parse\<close>, whose
  grammar is the host's; it is the parameter \<open>parse\<close>. Anything else is converted
  to a number first.
\<close>

fun new_Date :: "(js_string \<Rightarrow> date) \<Rightarrow> js_value \<Rightarrow> date" where
  "new_Date parse (JSString s) = parse s"
| "new_Date parse (JSNumber n) = TimeClip n"
| "new_Date parse (JSBoolean b) = Date (if b then 1 else 0)"
| "new_Date parse JSNull = Date 0"
| "new_Date parse JSUndefined = InvalidDate"

text \<open>A parameter declared \<open>deadline = null\<close> takes \<open>null\<close> when \<open>undefined\<close> is passed.\<close>

fun default_null :: "js_value \<Rightarrow> js_value" where
  "default_null JSUndefined = JSNull"
| "default_null v = v"

text \<open>
  The counter \<open>nextId\<close> is a JavaScript number, an IEEE double, and \<open>nextId++\<close> adds
  \<open>1\<close> in double arithmetic. Every whole number from \<open>- 2^53\<close> to \<open>2^53\<close> is a double,
  so on a whole number \<open>n\<close> with \<open>- 2^53 \<le> n\<close> and \<open>n < 2^53\<close> the sum is exact. At
  \<open>n = 2^53\<close> the sum \<open>2^53 + 1\<close> is no double: it lies halfway between \<open>2^53\<close> and
  \<open>2^53 + 2\<close> and is rounded to the one with the even significand, \<open>2^53\<close>. So the
  counter, which starts at \<open>1\<close>, counts up to \<open>2^53\<close> and stays there; \<open>js_incr\<close> is
  the step on the whole numbers from \<open>- 2^53\<close> to \<open>2^53\<close>, and \<open>nextId++\<close> yields the
  value of before.

  The lengths in the statistics are whole numbers, modelled as \<open>int\<close>; an array holds
  up to \<open>2^32 - 1\<close> elements, and the model describes a manager with fewer tasks.
\<close>

definition js_incr :: "int \<Rightarrow> int" where
  "js_incr n = (if n < 2 ^ 53 then n + 1 else n)"

section \<open>Task\<close>

record task =
  id_t :: int
  text_t :: js_string
  completed :: bool
  createdAt :: date
  deadline :: "date option"

text \<open>
  The constructor. \<open>now\<close> is the reading of the clock that \<open>new Date()\<close> takes;
  \<open>deadline = None\<close> is the field holding \<open>null\<close>.
\<close>

definition new_Task ::
  "(js_string \<Rightarrow> date) \<Rightarrow> int \<Rightarrow> int \<Rightarrow> js_string \<Rightarrow> js_value \<Rightarrow> task" where
  "new_Task parse now i tx dl =
     (let d = default_null dl in
      \<lparr>id_t = i, text_t = tx, completed = False, createdAt = Date now,
       deadline = (if ToBoolean d then Some (new_Date parse d) else None)\<rparr>)"

definition toggle :: "task \<Rightarrow> task" where
  "toggle t = t\<lparr>completed := \<not> completed t\<rparr>"

text \<open>
  \<open>!this.deadline\<close> holds for \<open>null\<close> only: a \<open>Date\<close> object is truthy, an invalid
  one too. A comparison with NaN is false, and arithmetic on NaN gives NaN.
\<close>

definition isOverdue :: "int \<Rightarrow> task \<Rightarrow> bool" where
  "isOverdue now t =
     (case deadline t of
        None \<Rightarrow> False
      | Some d \<Rightarrow>
          if completed t then False
          else (case d of InvalidDate \<Rightarrow> False | Date dl \<Rightarrow> now > dl))"

text \<open>
  \<open>timeDiff\<close> is a whole number of milliseconds and \<open>hoursDiff\<close> its quotient by
  3600000, taken exactly here. JavaScript rounds the quotient to a double; a quotient of
  whole milliseconds that is not 0 or 24 lies at least \<open>1/3600000\<close> away from them,
  far more than the rounding moves it, so both comparisons come out the same.
\<close>

definition isDueSoon :: "int \<Rightarrow> task \<Rightarrow> bool" where
  "isDueSoon now t =
     (case deadline t of
        None \<Rightarrow> False
      | Some d \<Rightarrow>
          if completed t then False
          else (case d of
                  InvalidDate \<Rightarrow> False
                | Date dl \<Rightarrow>
                    (let timeDiff = dl - now;
                         hoursDiff = (of_int timeDiff :: rat) / (1000 * 60 * 60)
                     in hoursDiff > 0 \<and> hoursDiff \<le> 24)))"

section \<open>TaskManager\<close>

record TaskManager =
  tasks :: "task list"
  nextId :: int

datatype error = Error string

record stats =
  total_s :: int
  completed_s :: int
  remaining :: int
  overdue :: int
  dueSoon :: int

definition new_TaskManager :: TaskManager where
  "new_TaskManager = \<lparr>tasks = [], nextId = 1\<rparr>"

text \<open>
  A call of \<open>addTask\<close> yields what it throws (\<open>Inl\<close>) or returns (\<open>Inr\<close>), and the
  manager as the call leaves it. The \<open>throw\<close> is the first statement; past it, the
  counter is stepped, the task constructed and pushed.
\<close>

definition addTask ::
  "(js_string \<Rightarrow> date) \<Rightarrow> int \<Rightarrow> TaskManager \<Rightarrow> js_string \<Rightarrow> js_value
     \<Rightarrow> (error + task) \<times> TaskManager" where
  "addTask parse now m tx dl =
     (if trim tx = [] then (Inl (Error ''Task text cannot be empty''), m)
      else
        (let task = new_Task parse now (nextId m) (trim tx) (default_null dl)
         in (Inr task, m\<lparr>nextId := js_incr (nextId m), tasks := tasks m @ [task]\<rparr>)))"

definition deleteTask :: "int \<Rightarrow> TaskManager \<Rightarrow> TaskManager" where
  "deleteTask i m = m\<lparr>tasks := filter (\<lambda>task. id_t task \<noteq> i) (tasks m)\<rparr>"

text \<open>\<open>find\<close> yields the first task with the id; that one is toggled where it stands.\<close>

fun toggle_found :: "int \<Rightarrow> task list \<Rightarrow> task list" where
  "toggle_found i [] = []"
| "toggle_found i (task # ts) =
     (if id_t task = i then toggle task # ts else task # toggle_found i ts)"

definition toggleTask :: "int \<Rightarrow> TaskManager \<Rightarrow> TaskManager" where
  "toggleTask i m = m\<lparr>tasks := toggle_found i (tasks m)\<rparr>"

definition clearCompleted :: "TaskManager \<Rightarrow> TaskManager" where
  "clearCompleted m = m\<lparr>tasks := filter (\<lambda>task. \<not> completed task) (tasks m)\<rparr>"

definition getStats :: "int \<Rightarrow> TaskManager \<Rightarrow> stats" where
  "getStats now m =
     (let total = int (length (tasks m));
          completed = int (length (filter completed (tasks m)));
          remaining = total - completed;
          overdue = int (length (filter (isOverdue now) (tasks m)));
          dueSoon = int (length (filter (isDueSoon now) (tasks m)))
      in \<lparr>total_s = total, completed_s = completed, remaining = remaining,
          overdue = overdue, dueSoon = dueSoon\<rparr>)"

definition getAllTasks :: "TaskManager \<Rightarrow> task list" where
  "getAllTasks m = tasks m"

subsection \<open>Sequences of calls\<close>

datatype command =
  AddTask js_string js_value int
| DeleteTask int
| ToggleTask int
| ClearCompleted
| GetStats int
| GetAllTasks

text \<open>
  One call on the manager, by a caller that catches what \<open>addTask\<close> throws and goes
  on. The second component is the id of the task a successful \<open>addTask\<close> returned.
\<close>

fun exec :: "(js_string \<Rightarrow> date) \<Rightarrow> command \<Rightarrow> TaskManager \<Rightarrow> TaskManager \<times> int option" where
  "exec parse (AddTask tx dl now) m =
     (case addTask parse now m tx dl of
        (Inl e, m') \<Rightarrow> (m', None)
      | (Inr task, m') \<Rightarrow> (m', Some (id_t task)))"
| "exec parse (DeleteTask i) m = (deleteTask i m, None)"
| "exec parse (ToggleTask i) m = (toggleTask i m, None)"
| "exec parse ClearCompleted m = (clearCompleted m, None)"
| "exec parse (GetStats now) m = (m, None)"
| "exec parse GetAllTasks m = (m, None)"

fun run :: "(js_string \<Rightarrow> date) \<Rightarrow> command list \<Rightarrow> TaskManager \<Rightarrow> TaskManager" where
  "run parse [] m = m"
| "run parse (c # cs) m = run parse cs (fst (exec parse c m))"

fun returned_ids :: "(js_string \<Rightarrow> date) \<Rightarrow> command list \<Rightarrow> TaskManager \<Rightarrow> int list" where
  "returned_ids parse [] m = []"
| "returned_ids parse (c # cs) m =
     (case exec parse c m of
        (m', None) \<Rightarrow> returned_ids parse cs m'
      | (m', Some i) \<Rightarrow> i # returned_ids parse cs m')"

text \<open>A parser that rejects every string, for examples that pass no string deadline.\<close>

definition parse_none :: "js_string \<Rightarrow> date" where
  "parse_none s = InvalidDate"

section \<open>The manager on a store of objects\<close>

text \<open>
  Arrays and tasks are objects: \<open>push\<close> and \<open>toggle\<close> change the object they are called
  on, \<open>filter\<close> and the spread \<open>[...this.tasks]\<close> make a new array, and an array holds
  references to its tasks. The store maps a reference to the object it stands for;
  references are handed out in increasing order, \<open>next_ref\<close> being the first one not
  in use. The fields \<open>this_tasks\<close> and \<open>this_nextId\<close> are those of the manager.
\<close>

type_synonym ref = nat

record store =
  task_at :: "ref \<Rightarrow> task"
  array_at :: "ref \<Rightarrow> ref list"
  next_ref :: ref

record state = store +
  this_tasks :: ref
  this_nextId :: int

text \<open>The constructor allocates the empty array in the store it runs in.\<close>

definition new_TaskManager_st :: "store \<Rightarrow> state" where
  "new_TaskManager_st h =
     (let a = next_ref h in
      \<lparr>task_at = task_at h, array_at = (array_at h)(a := []), next_ref = Suc a,
       this_tasks = a, this_nextId = 1\<rparr>)"

definition addTask_st ::
  "(js_string \<Rightarrow> date) \<Rightarrow> int \<Rightarrow> state \<Rightarrow> js_string \<Rightarrow> js_value \<Rightarrow> (error + ref) \<times> state" where
  "addTask_st parse now s tx dl =
     (if trim tx = [] then (Inl (Error ''Task text cannot be empty''), s)
      else
        (let task = new_Task parse now (this_nextId s) (trim tx) (default_null dl);
             r = next_ref s;
             a = this_tasks s
         in (Inr r, s\<lparr>this_nextId := js_incr (this_nextId s),
                      task_at := (task_at s)(r := task),
                      next_ref := Suc r,
                      array_at := (array_at s)(a := array_at s a @ [r])\<rparr>)))"

definition deleteTask_st :: "int \<Rightarrow> state \<Rightarrow> state" where
  "deleteTask_st i s =
     (let a = next_ref s in
      s\<lparr>array_at := (array_at s)
            (a := filter (\<lambda>r. id_t (task_at s r) \<noteq> i) (array_at s (this_tasks s))),
        next_ref := Suc a,
        this_tasks := a\<rparr>)"

definition toggleTask_st :: "int \<Rightarrow> state \<Rightarrow> state" where
  "toggleTask_st i s =
     (case find (\<lambda>r. id_t (task_at s r) = i) (array_at s (this_tasks s)) of
        None \<Rightarrow> s
      | Some r \<Rightarrow> s\<lparr>task_at := (task_at s)(r := toggle (task_at s r))\<rparr>)"

definition clearCompleted_st :: "state \<Rightarrow> state" where
  "clearCompleted_st s =
     (let a = next_ref s in
      s\<lparr>array_at := (array_at s)
            (a := filter (\<lambda>r. \<not> completed (task_at s r)) (array_at s (this_tasks s))),
        next_ref := Suc a,
        this_tasks := a\<rparr>)"

text \<open>The arrays that the three \<open>filter\<close> calls of \<open>getStats\<close> build are dropped at once.\<close>

definition getStats_st :: "int \<Rightarrow> state \<Rightarrow> stats" where
  "getStats_st now s =
     (let ts = map (task_at s) (array_at s (this_tasks s));
          total = int (length ts);
          completed = int (length (filter completed ts));
          remaining = total - completed;
          overdue = int (length (filter (isOverdue now) ts));
          dueSoon = int (length (filter (isDueSoon now) ts))
      in \<lparr>total_s = total, completed_s = completed, remaining = remaining,
          overdue = overdue, dueSoon = dueSoon\<rparr>)"

definition getAllTasks_st :: "state \<Rightarrow> ref \<times> state" where
  "getAllTasks_st s =
     (let a = next_ref s in
      (a, s\<lparr>array_at := (array_at s)(a := array_at s (this_tasks s)), next_ref := Suc a\<rparr>))"

text \<open>One call, with the reference of the task a successful \<open>addTask\<close> created.\<close>

fun exec_st :: "(js_string \<Rightarrow> date) \<Rightarrow> command \<Rightarrow> state \<Rightarrow> state \<times> ref option" where
  "exec_st parse (AddTask tx dl now) s =
     (case addTask_st parse now s tx dl of
        (Inl e, s') \<Rightarrow> (s', None)
      | (Inr r, s') \<Rightarrow> (s', Some r))"
| "exec_st parse (DeleteTask i) s = (deleteTask_st i s, None)"
| "exec_st parse (ToggleTask i) s = (toggleTask_st i s, None)"
| "exec_st parse ClearCompleted s = (clearCompleted_st s, None)"
| "exec_st parse (GetStats now) s = (s, None)"
| "exec_st parse GetAllTasks s = (snd (getAllTasks_st s), None)"

fun run_st :: "(js_string \<Rightarrow> date) \<Rightarrow> command list \<Rightarrow> state \<Rightarrow> state" where
  "run_st parse [] s = s"
| "run_st parse (c # cs) s = run_st parse cs (fst (exec_st parse c s))"

fun created :: "(js_string \<Rightarrow> date) \<Rightarrow> command list \<Rightarrow> state \<Rightarrow> ref list" where
  "created parse [] s = []"
| "created parse (c # cs) s =
     (case exec_st parse c s of
        (s', None) \<Rightarrow> created parse cs s'
      | (s', Some r) \<Rightarrow> r # created parse cs s')"

text \<open>
  What the manager's fields stand for: the tasks its array refers to, in the array's
  order, and the counter.
\<close>

definition contents :: "state \<Rightarrow> TaskManager" where
  "contents s =
     \<lparr>tasks = map (task_at s) (array_at s (this_tasks s)), nextId = this_nextId s\<rparr>"

text \<open>
  The states the program can be in: every reference in use is below \<open>next_ref\<close>, and
  the manager's array holds no task twice.
\<close>

definition well_formed :: "state \<Rightarrow> bool" where
  "well_formed s =
     (this_tasks s < next_ref s
      \<and> list_all (\<lambda>r. r < next_ref s) (array_at s (this_tasks s))
      \<and> distinct (array_at s (this_tasks s)))"

text \<open>A store with nothing allocated, for examples.\<close>

definition empty_store :: store where
  "empty_store =
     \<lparr>task_at = (\<lambda>r. new_Task parse_none 0 0 [] JSNull), array_at = (\<lambda>r. []), next_ref = 0\<rparr>"

text \<open>
  A session at the page: three tasks are typed in, one text is blank; the first task is
  deleted and the second ticked off.
\<close>

definition session :: "command list" where
  "session =
     [AddTask (ascii ''a'') JSNull 10, AddTask (ascii ''  '') JSNull 20,
      AddTask (ascii '' b '') (JSString []) 30, DeleteTask 1, ToggleTask 2, GetAllTasks,
      AddTask (ascii ''c'') JSNull 40, GetStats 50]"


text \<open>
  A manager with three tasks: one completed, one open with a deadline at the clock
  reading 500, one open without deadline.
\<close>

definition three_tasks :: TaskManager where
  "three_tasks =
     \<lparr>tasks = [\<lparr>id_t = 1, text_t = ascii ''a'', completed = True, createdAt = Date 0,
                 deadline = None\<rparr>,
               \<lparr>id_t = 2, text_t = ascii ''b'', completed = False, createdAt = Date 0,
                 deadline = Some (Date 500)\<rparr>,
               \<lparr>id_t = 3, text_t = ascii ''c'', completed = False, createdAt = Date 0,
                 deadline = None\<rparr>],
      nextId = 4\<rparr>"

section \<open>Adding a task\<close>

lemma trim_blank: "trim [] = []" "trim (ascii ''   '') = []"
  by (simp_all add: trim_def ascii_def isWhiteSpace_def)


text \<open>
  Claim C1. When the text trims to the empty string, \<open>addTask\<close> throws its one error
  (the validation error of the specification) and leaves the manager as it found it,
  with the same tasks and the same \<open>nextId\<close>; on the store, no object has changed.
\<close>

theorem addTask_blank_rejected:
  assumes "trim tx = []"
  shows "addTask parse now m tx dl = (Inl (Error ''Task text cannot be empty''), m)
         \<and> tasks (snd (addTask parse now m tx dl)) = tasks m
         \<and> nextId (snd (addTask parse now m tx dl)) = nextId m
         \<and> addTask_st parse now s tx dl = (Inl (Error ''Task text cannot be empty''), s)"
  using assms by (simp add: addTask_def addTask_st_def)

theorem addTask_blank_rejected_witness:
  "trim [] = [] \<and> trim (ascii ''   '') = []
   \<and> addTask parse_none 0 \<lparr>tasks = [], nextId = 7\<rparr> [] JSNull
       = (Inl (Error ''Task text cannot be empty''), \<lparr>tasks = [], nextId = 7\<rparr>)
   \<and> addTask parse_none 0 \<lparr>tasks = [], nextId = 7\<rparr> (ascii ''   '') JSNull
       = (Inl (Error ''Task text cannot be empty''), \<lparr>tasks = [], nextId = 7\<rparr>)"
proof -
  have a: "trim [] = []" and b: "trim (ascii ''   '') = []"
    by (rule trim_blank)+
  show ?thesis
    using a b
      addTask_blank_rejected [OF a, where parse = parse_none and now = 0
        and m = "\<lparr>tasks = [], nextId = 7\<rparr>" and dl = JSNull]
      addTask_blank_rejected [OF b, where parse = parse_none and now = 0
        and m = "\<lparr>tasks = [], nextId = 7\<rparr>" and dl = JSNull]
    by simp
qed






section \<open>Overdue and due soon\<close>

lemma hours_window:
  "(0 < (of_int d :: rat) / (1000 * 60 * 60) \<and> (of_int d :: rat) / (1000 * 60 * 60) \<le> 24)
     \<longleftrightarrow> (0 < d \<and> d \<le> 24 * 60 * 60 * 1000)"
proof -
  have "(of_int d :: rat) / (1000 * 60 * 60) \<le> 24 \<longleftrightarrow> (of_int d :: rat) \<le> 24 * (1000 * 60 * 60)"
    by (simp add: pos_divide_le_eq)
  also have "\<dots> \<longleftrightarrow> (of_int d :: rat) \<le> of_int (24 * 60 * 60 * 1000)" by simp
  also have "\<dots> \<longleftrightarrow> d \<le> 24 * 60 * 60 * 1000" by (simp only: of_int_le_iff)
  finally have le: "(of_int d :: rat) / (1000 * 60 * 60) \<le> 24 \<longleftrightarrow> d \<le> 24 * 60 * 60 * 1000" .
  have gt: "0 < (of_int d :: rat) / (1000 * 60 * 60) \<longleftrightarrow> 0 < d"
    by (simp add: zero_less_divide_iff)
  show ?thesis using le gt by simp
qed

text \<open>
  Claim C3. \<open>isDueSoon\<close> holds exactly when the task has a deadline, is not completed,
  and the time left to the deadline is more than nothing and at most 24 hours (in
  milliseconds: \<open>0 < dl - now\<close> and \<open>dl - now \<le> 86400000\<close>; an invalid date leaves no such
  time). So no task is overdue and due soon at once.
\<close>

theorem isDueSoon_iff:
  "(isDueSoon now t \<longleftrightarrow>
     deadline t \<noteq> None \<and> \<not> completed t
     \<and> (\<exists>dl. deadline t = Some (Date dl) \<and> 0 < dl - now \<and> dl - now \<le> 24 * 60 * 60 * 1000))
   \<and> \<not> (isOverdue now t \<and> isDueSoon now t)"
proof -
  have w: "\<And>dl. (0 < (of_int (dl - now) :: rat) / (1000 * 60 * 60)
            \<and> (of_int (dl - now) :: rat) / (1000 * 60 * 60) \<le> 24)
          \<longleftrightarrow> (0 < dl - now \<and> dl - now \<le> 24 * 60 * 60 * 1000)"
    by (rule hours_window)
  show ?thesis
    unfolding isDueSoon_def isOverdue_def Let_def
    by (auto simp: w split: option.splits date.splits)
qed

text \<open>
  A task due two hours after the clock reading 1000 is due soon and not overdue; ticked
  off, it is neither. At exactly 24 hours it is due soon, one millisecond later it is not.
\<close>

theorem isDueSoon_iff_witness:
  "isDueSoon 1000 (new_Task parse_none 0 1 (ascii ''a'') (JSNumber (Finite 7201000)))
   \<and> \<not> isOverdue 1000 (new_Task parse_none 0 1 (ascii ''a'') (JSNumber (Finite 7201000)))
   \<and> \<not> isDueSoon 1000 (toggle (new_Task parse_none 0 1 (ascii ''a'') (JSNumber (Finite 7201000))))
   \<and> isDueSoon 1000 (new_Task parse_none 0 1 (ascii ''a'') (JSNumber (Finite 86401000)))
   \<and> \<not> isDueSoon 1000 (new_Task parse_none 0 1 (ascii ''a'') (JSNumber (Finite 86401001)))
   \<and> \<not> isDueSoon 1000 (new_Task parse_none 0 1 (ascii ''a'') (JSNumber (Finite 1000)))"
  using isDueSoon_iff [of 1000 "new_Task parse_none 0 1 (ascii ''a'') (JSNumber (Finite 7201000))"]
    isDueSoon_iff [of 1000 "toggle (new_Task parse_none 0 1 (ascii ''a'') (JSNumber (Finite 7201000)))"]
    isDueSoon_iff [of 1000 "new_Task parse_none 0 1 (ascii ''a'') (JSNumber (Finite 86401000))"]
    isDueSoon_iff [of 1000 "new_Task parse_none 0 1 (ascii ''a'') (JSNumber (Finite 86401001))"]
    isDueSoon_iff [of 1000 "new_Task parse_none 0 1 (ascii ''a'') (JSNumber (Finite 1000))"]
  by (auto simp: new_Task_def toggle_def)

text \<open>
  Claim C4. \<open>isOverdue\<close> holds exactly when the task has a deadline, is not completed,
  and the clock is past the deadline; a task without deadline, and a completed one, is
  never overdue.
\<close>

theorem isOverdue_iff:
  "(isOverdue now t \<longleftrightarrow>
     deadline t \<noteq> None \<and> \<not> completed t \<and> (\<exists>dl. deadline t = Some (Date dl) \<and> dl < now))
   \<and> (deadline t = None \<longrightarrow> \<not> isOverdue now t)
   \<and> (completed t \<longrightarrow> \<not> isOverdue now t)"
  unfolding isOverdue_def by (auto split: option.splits date.splits)

text \<open>
  A task whose deadline passed a minute before the clock reading 100000 is overdue and
  not due soon; at the deadline itself it is not overdue yet.
\<close>

theorem isOverdue_iff_witness:
  "isOverdue 100000 (new_Task parse_none 0 1 (ascii ''a'') (JSNumber (Finite 40000)))
   \<and> \<not> isDueSoon 100000 (new_Task parse_none 0 1 (ascii ''a'') (JSNumber (Finite 40000)))
   \<and> \<not> isOverdue 40000 (new_Task parse_none 0 1 (ascii ''a'') (JSNumber (Finite 40000)))
   \<and> deadline (new_Task parse_none 0 1 (ascii ''a'') JSNull) = None
   \<and> \<not> isOverdue 100000 (new_Task parse_none 0 1 (ascii ''a'') JSNull)
   \<and> completed (toggle (new_Task parse_none 0 1 (ascii ''a'') (JSNumber (Finite 40000))))
   \<and> \<not> isOverdue 100000 (toggle (new_Task parse_none 0 1 (ascii ''a'') (JSNumber (Finite 40000))))"
proof -
  have n: "deadline (new_Task parse_none 0 1 (ascii ''a'') JSNull) = None"
    by (simp add: new_Task_def)
  have c: "completed (toggle (new_Task parse_none 0 1 (ascii ''a'') (JSNumber (Finite 40000))))"
    by (simp add: new_Task_def toggle_def)
  have d: "\<not> isDueSoon 100000 (new_Task parse_none 0 1 (ascii ''a'') (JSNumber (Finite 40000)))"
    by (simp add: new_Task_def isDueSoon_def)
  show ?thesis
    using n c d
      isOverdue_iff [of 100000 "new_Task parse_none 0 1 (ascii ''a'') (JSNumber (Finite 40000))"]
      isOverdue_iff [of 40000 "new_Task parse_none 0 1 (ascii ''a'') (JSNumber (Finite 40000))"]
      isOverdue_iff [of 100000 "new_Task parse_none 0 1 (ascii ''a'') JSNull"]
      isOverdue_iff [of 100000 "toggle (new_Task parse_none 0 1 (ascii ''a'') (JSNumber (Finite 40000)))"]
    by (simp add: new_Task_def)
qed

section \<open>Statistics\<close>

text \<open>The tasks that remain are those not completed.\<close>

lemma getStats_remaining:
  "remaining (getStats now m) = int (length (filter (\<lambda>task. \<not> completed task) (tasks m)))"
proof -
  have "length (tasks m)
        = length (filter completed (tasks m))
          + length (filter (\<lambda>task. \<not> completed task) (tasks m))"
    by (rule sum_length_filter_compl [symmetric])
  then show ?thesis by (simp add: getStats_def Let_def)
qed

text \<open>A task is counted as overdue or as due soon only if it is open, and not as both.\<close>

lemma classified_open:
  "length (filter (isOverdue now) ts) + length (filter (isDueSoon now) ts)
     \<le> length (filter (\<lambda>task. \<not> completed task) ts)"
proof (induction ts)
  case Nil
  then show ?case by simp
next
  case (Cons t ts)
  have "\<not> (isOverdue now t \<and> isDueSoon now t)"
    "isOverdue now t \<longrightarrow> \<not> completed t" "isDueSoon now t \<longrightarrow> \<not> completed t"
    by (auto simp: isOverdue_def isDueSoon_def Let_def split: option.splits date.splits)
  with Cons show ?case by auto
qed

text \<open>
  Claim C5. \<open>getStats\<close> depends on the tasks and the clock reading alone. Its \<open>total\<close>
  is the number of tasks, \<open>completed\<close> the number of positions holding a completed task,
  \<open>remaining\<close> their difference, \<open>overdue\<close> and \<open>dueSoon\<close> the numbers of positions
  holding a task that \<open>isOverdue\<close>, respectively \<open>isDueSoon\<close>, at that reading. The
  difference is not negative, and the overdue and the due-soon tasks are among the
  remaining ones.
\<close>

theorem getStats_counts:
  "total_s (getStats now m) = int (length (tasks m))
   \<and> completed_s (getStats now m)
       = int (card {k. k < length (tasks m) \<and> completed (tasks m ! k)})
   \<and> remaining (getStats now m) = total_s (getStats now m) - completed_s (getStats now m)
   \<and> overdue (getStats now m)
       = int (card {k. k < length (tasks m) \<and> isOverdue now (tasks m ! k)})
   \<and> dueSoon (getStats now m)
       = int (card {k. k < length (tasks m) \<and> isDueSoon now (tasks m ! k)})
   \<and> 0 \<le> remaining (getStats now m)
   \<and> overdue (getStats now m) + dueSoon (getStats now m) \<le> remaining (getStats now m)"
proof -
  note r = getStats_remaining [of now m]
  have o: "overdue (getStats now m) + dueSoon (getStats now m)
           = int (length (filter (isOverdue now) (tasks m))
                  + length (filter (isDueSoon now) (tasks m)))"
    by (simp add: getStats_def Let_def)
  have le: "overdue (getStats now m) + dueSoon (getStats now m) \<le> remaining (getStats now m)"
    unfolding o r using classified_open [of now "tasks m"] by (simp only: of_nat_le_iff)
  have nn: "0 \<le> remaining (getStats now m)" by (simp add: r)
  have main: "total_s (getStats now m) = int (length (tasks m))
   \<and> completed_s (getStats now m)
       = int (card {k. k < length (tasks m) \<and> completed (tasks m ! k)})
   \<and> remaining (getStats now m) = total_s (getStats now m) - completed_s (getStats now m)
   \<and> overdue (getStats now m)
       = int (card {k. k < length (tasks m) \<and> isOverdue now (tasks m ! k)})
   \<and> dueSoon (getStats now m)
       = int (card {k. k < length (tasks m) \<and> isDueSoon now (tasks m ! k)})"
    by (simp add: getStats_def Let_def length_filter_conv_card)
  from main nn le show ?thesis by blast
qed

text \<open>Of the three tasks, at the clock reading 1000: one completed, one overdue.\<close>

theorem getStats_counts_witness:
  "getStats 1000 three_tasks
     = \<lparr>total_s = 3, completed_s = 1, remaining = 2, overdue = 1, dueSoon = 0\<rparr>"
proof -
  have c: "card {k. k < length (tasks three_tasks) \<and> completed (tasks three_tasks ! k)} = 1"
    "card {k. k < length (tasks three_tasks) \<and> isOverdue 1000 (tasks three_tasks ! k)} = 1"
    "card {k. k < length (tasks three_tasks) \<and> isDueSoon 1000 (tasks three_tasks ! k)} = 0"
    unfolding length_filter_conv_card [symmetric]
    by (simp_all add: three_tasks_def isOverdue_def isDueSoon_def)
  have l: "length (tasks three_tasks) = 3" by (simp add: three_tasks_def)
  show ?thesis
    using getStats_counts [of 1000 three_tasks] c l
    by (cases "getStats 1000 three_tasks") simp
qed

section \<open>Clearing, deleting, toggling\<close>

text \<open>
  Claim C7. \<open>clearCompleted\<close> keeps the tasks that are not completed, each as often as
  before and in their former order, removes the others and nothing else, and leaves the
  counter; called a second time it changes nothing.
\<close>

theorem clearCompleted_idempotent:
  "tasks (clearCompleted m) = filter (\<lambda>task. \<not> completed task) (tasks m)
   \<and> set (tasks (clearCompleted m)) = set (tasks m) - {task. completed task}
   \<and> subseq (tasks (clearCompleted m)) (tasks m)
   \<and> nextId (clearCompleted m) = nextId m
   \<and> clearCompleted (clearCompleted m) = clearCompleted m"
  by (auto simp: clearCompleted_def)

theorem clearCompleted_idempotent_witness:
  "tasks (clearCompleted three_tasks)
     = [\<lparr>id_t = 2, text_t = ascii ''b'', completed = False, createdAt = Date 0,
          deadline = Some (Date 500)\<rparr>,
        \<lparr>id_t = 3, text_t = ascii ''c'', completed = False, createdAt = Date 0,
          deadline = None\<rparr>]
   \<and> nextId (clearCompleted three_tasks) = 4
   \<and> clearCompleted (clearCompleted three_tasks) = clearCompleted three_tasks"
  using clearCompleted_idempotent [of three_tasks] by (simp add: three_tasks_def)

lemma toggle_found_absent: "i \<notin> id_t ` set ts \<Longrightarrow> toggle_found i ts = ts"
  by (induction ts) auto

lemma deleteTask_absent:
  assumes "i \<notin> id_t ` set (tasks m)"
  shows "deleteTask i m = m"
proof -
  from assms have "filter (\<lambda>task. id_t task \<noteq> i) (tasks m) = tasks m"
    by (auto simp: filter_id_conv)
  then show ?thesis by (simp add: deleteTask_def)
qed

lemma toggleTask_absent: "i \<notin> id_t ` set (tasks m) \<Longrightarrow> toggleTask i m = m"
  by (simp add: toggleTask_def toggle_found_absent)

lemma id_gone_after_delete: "i \<notin> id_t ` set (tasks (deleteTask i m))"
  by (auto simp: deleteTask_def)

text \<open>
  Claim C8. For an id that no task has, \<open>deleteTask\<close> and \<open>toggleTask\<close> return the
  manager as it was; neither has an error to raise. After \<open>deleteTask i\<close>, whatever the
  manager and \<open>i\<close>, \<open>toggleTask i\<close> changes nothing.
\<close>

theorem unknown_id_noop:
  "(i \<notin> id_t ` set (tasks m) \<longrightarrow> deleteTask i m = m \<and> toggleTask i m = m)
   \<and> toggleTask i (deleteTask i m) = deleteTask i m"
  using toggleTask_absent [of i m] toggleTask_absent [of i "deleteTask i m"]
    deleteTask_absent [of i m] id_gone_after_delete [of i m]
  by blast

theorem unknown_id_noop_witness:
  "(5::int) \<notin> id_t ` set (tasks \<lparr>tasks = [new_Task parse_none 0 1 (ascii ''a'') JSNull], nextId = 2\<rparr>)
   \<and> deleteTask 5 \<lparr>tasks = [new_Task parse_none 0 1 (ascii ''a'') JSNull], nextId = 2\<rparr>
       = \<lparr>tasks = [new_Task parse_none 0 1 (ascii ''a'') JSNull], nextId = 2\<rparr>
   \<and> toggleTask 5 \<lparr>tasks = [new_Task parse_none 0 1 (ascii ''a'') JSNull], nextId = 2\<rparr>
       = \<lparr>tasks = [new_Task parse_none 0 1 (ascii ''a'') JSNull], nextId = 2\<rparr>
   \<and> toggleTask 1 (deleteTask 1 \<lparr>tasks = [new_Task parse_none 0 1 (ascii ''a'') JSNull], nextId = 2\<rparr>)
       = \<lparr>tasks = [], nextId = 2\<rparr>"
proof -
  have h: "(5::int) \<notin> id_t ` set (tasks \<lparr>tasks = [new_Task parse_none 0 1 (ascii ''a'') JSNull], nextId = 2\<rparr>)"
    by (simp add: new_Task_def)
  have d: "deleteTask 1 \<lparr>tasks = [new_Task parse_none 0 1 (ascii ''a'') JSNull], nextId = 2\<rparr>
           = \<lparr>tasks = [], nextId = 2\<rparr>"
    by (simp add: deleteTask_def new_Task_def)
  show ?thesis
    using h d
      unknown_id_noop [where i = 5
        and m = "\<lparr>tasks = [new_Task parse_none 0 1 (ascii ''a'') JSNull], nextId = 2\<rparr>"]
      unknown_id_noop [where i = 1
        and m = "\<lparr>tasks = [new_Task parse_none 0 1 (ascii ''a'') JSNull], nextId = 2\<rparr>"]
    by simp
qed

section \<open>The deadline argument\<close>

lemma falsy_values:
  "\<not> ToBoolean (default_null JSNull)" "\<not> ToBoolean (default_null (JSString []))"
  "\<not> ToBoolean (default_null (JSNumber (Finite 0)))" "\<not> ToBoolean (default_null JSUndefined)"
  "\<not> ToBoolean (default_null (JSNumber NaN))" "\<not> ToBoolean (default_null (JSBoolean False))"
  by simp_all

text \<open>
  Claim C10. The task that \<open>addTask\<close> creates has no deadline exactly when the deadline
  argument is falsy (\<open>null\<close>, the empty string and \<open>0\<close> are). Such a task is not overdue
  and not due soon at any clock reading, ticked off or not. A truthy argument is the one
  that \<open>new Date\<close> turns into the deadline.
\<close>

theorem falsy_deadline_absent:
  assumes "trim tx \<noteq> []"
  shows "\<not> ToBoolean JSNull \<and> \<not> ToBoolean (JSString []) \<and> \<not> ToBoolean (JSNumber (Finite 0))
         \<and> (\<exists>task m'. addTask parse now m tx dl = (Inr task, m')
              \<and> (deadline task = None \<longleftrightarrow> \<not> ToBoolean dl)
              \<and> (\<not> ToBoolean dl \<longrightarrow>
                    (\<forall>t. \<not> isOverdue t task \<and> \<not> isDueSoon t task
                         \<and> \<not> isOverdue t (toggle task) \<and> \<not> isDueSoon t (toggle task)))
              \<and> (ToBoolean dl \<longrightarrow> deadline task = Some (new_Date parse dl)))"
  using assms
  by (cases dl) (auto simp: addTask_def new_Task_def Let_def isOverdue_def isDueSoon_def toggle_def)

theorem falsy_deadline_absent_witness:
  "trim (ascii ''a'') \<noteq> [] \<and> \<not> ToBoolean (JSNumber (Finite 0)) \<and> ToBoolean (JSNumber (Finite 5))
   \<and> (\<exists>task m'. addTask parse_none 0 new_TaskManager (ascii ''a'') (JSNumber (Finite 0))
                    = (Inr task, m')
         \<and> deadline task = None \<and> \<not> isOverdue 9 task \<and> \<not> isDueSoon 9 task)
   \<and> (\<exists>task m'. addTask parse_none 0 new_TaskManager (ascii ''a'') (JSNumber (Finite 5))
                    = (Inr task, m')
         \<and> deadline task = Some (Date 5))"
proof -
  have h: "trim (ascii ''a'') \<noteq> []"
    by (simp add: trim_def ascii_def isWhiteSpace_def)
  have z: "\<not> ToBoolean (JSNumber (Finite 0))" and f: "ToBoolean (JSNumber (Finite 5))"
    by simp_all
  have d: "new_Date parse_none (JSNumber (Finite 5)) = Date 5" by simp
  from falsy_deadline_absent [OF h, where parse = parse_none and now = 0
      and m = new_TaskManager and dl = "JSNumber (Finite 0)"] z
  have a: "\<exists>task m'. addTask parse_none 0 new_TaskManager (ascii ''a'') (JSNumber (Finite 0))
                    = (Inr task, m')
         \<and> deadline task = None \<and> \<not> isOverdue 9 task \<and> \<not> isDueSoon 9 task"
    by blast
  from falsy_deadline_absent [OF h, where parse = parse_none and now = 0
      and m = new_TaskManager and dl = "JSNumber (Finite 5)"] f d
  have b: "\<exists>task m'. addTask parse_none 0 new_TaskManager (ascii ''a'') (JSNumber (Finite 5))
                    = (Inr task, m')
         \<and> deadline task = Some (Date 5)"
    by auto
  from h z f a b show ?thesis by blast
qed

section \<open>Ids over a sequence of calls\<close>


lemma map_id_toggle_found: "map id_t (toggle_found i ts) = map id_t ts"
  by (induction ts) (simp_all add: toggle_def)

text \<open>A call that returns no task leaves the counter and creates no id.\<close>

lemma exec_None:
  assumes "exec parse c m = (m', None)"
  shows "nextId m' = nextId m \<and> subseq (map id_t (tasks m')) (map id_t (tasks m))"
proof (cases c)
  case (AddTask tx dl now)
  with assms show ?thesis by (auto simp: addTask_def Let_def split: if_splits)
next
  case (DeleteTask i)
  with assms show ?thesis by (auto simp: deleteTask_def intro: subseq_map)
next
  case (ToggleTask i)
  with assms show ?thesis by (auto simp: toggleTask_def map_id_toggle_found)
next
  case ClearCompleted
  with assms show ?thesis by (auto simp: clearCompleted_def intro: subseq_map)
next
  case (GetStats now)
  with assms show ?thesis by auto
next
  case GetAllTasks
  with assms show ?thesis by auto
qed

lemma exec_Some:
  assumes "exec parse c m = (m', Some i)"
  shows "i = nextId m \<and> nextId m' = js_incr (nextId m)
         \<and> map id_t (tasks m') = map id_t (tasks m) @ [i]"
  using assms
  by (cases c) (auto simp: addTask_def new_Task_def Let_def split: if_splits)



lemma run_nextId:
  "nextId m \<le> 2 ^ 53 \<Longrightarrow>
     nextId (run parse cs m) = min (nextId m + int (length (returned_ids parse cs m))) (2 ^ 53)"
proof (induction cs arbitrary: m)
  case Nil
  then show ?case by simp
next
  case (Cons c cs)
  obtain m' r where e: "exec parse c m = (m', r)" by (cases "exec parse c m")
  show ?case
  proof (cases r)
    case None
    with e have n: "nextId m' = nextId m" using exec_None by blast
    with Cons.IH [of m'] Cons.prems e None show ?thesis by simp
  next
    case (Some i)
    with e have n: "nextId m' = js_incr (nextId m)" using exec_Some by blast
    then have le: "nextId m' \<le> 2 ^ 53" using Cons.prems by (simp add: js_incr_def)
    have "nextId (run parse cs m')
          = min (nextId m' + int (length (returned_ids parse cs m'))) (2 ^ 53)"
      using le by (rule Cons.IH)
    also have "\<dots> = min (nextId m + int (Suc (length (returned_ids parse cs m')))) (2 ^ 53)"
      using n Cons.prems by (simp add: js_incr_def add.assoc)
    finally show ?thesis using e Some by simp
  qed
qed

text \<open>From the constructor on, the counter is a whole number from 1 to \<open>2^53\<close>.\<close>

lemma counter_range:
  "1 \<le> nextId (run parse cs new_TaskManager) \<and> nextId (run parse cs new_TaskManager) \<le> 2 ^ 53"
  using run_nextId [of new_TaskManager parse cs] by (simp add: new_TaskManager_def)







section \<open>Arrays and tasks as objects\<close>

lemma well_formed_new: "well_formed (new_TaskManager_st h)"
  by (simp add: well_formed_def new_TaskManager_st_def Let_def)

lemma toggleTask_st_arrays:
  "array_at (toggleTask_st i s) = array_at s \<and> next_ref (toggleTask_st i s) = next_ref s
   \<and> this_tasks (toggleTask_st i s) = this_tasks s
   \<and> this_nextId (toggleTask_st i s) = this_nextId s"
  by (simp add: toggleTask_st_def split: option.splits)

text \<open>
  \<open>push\<close> writes into the array that the manager holds: whoever holds the same array
  sees the new task.
\<close>

lemma addTask_st_pushes:
  assumes "addTask_st parse now s tx dl = (Inr r, s')"
  shows "this_tasks s' = this_tasks s
         \<and> array_at s' (this_tasks s) = array_at s (this_tasks s) @ [r]"
  using assms by (auto simp: addTask_st_def Let_def split: if_splits)

text \<open>
  One call keeps the state well formed, hands out no reference twice, and leaves every
  array other than the manager's as it is; such an array does not become the manager's.
\<close>

lemma exec_st_frame:
  assumes "well_formed s" and "exec_st parse c s = (s', r)"
  shows "well_formed s' \<and> next_ref s \<le> next_ref s'
         \<and> (\<forall>a. a < next_ref s \<and> a \<noteq> this_tasks s \<longrightarrow>
               array_at s' a = array_at s a \<and> a \<noteq> this_tasks s')"
proof (cases c)
  case (AddTask tx dl now)
  show ?thesis
  proof (cases "trim tx = []")
    case True
    with assms AddTask show ?thesis by (simp add: addTask_st_def)
  next
    case False
    with assms AddTask show ?thesis
      by (auto simp: addTask_st_def Let_def well_formed_def list_all_iff less_Suc_eq)
  qed
next
  case (DeleteTask i)
  with assms show ?thesis
    by (auto simp: deleteTask_st_def Let_def well_formed_def list_all_iff less_Suc_eq)
next
  case (ToggleTask i)
  with assms toggleTask_st_arrays [of i s] show ?thesis
    by (auto simp: well_formed_def)
next
  case ClearCompleted
  with assms show ?thesis
    by (auto simp: clearCompleted_st_def Let_def well_formed_def list_all_iff less_Suc_eq)
next
  case (GetStats now)
  with assms show ?thesis by auto
next
  case GetAllTasks
  with assms show ?thesis
    by (auto simp: getAllTasks_st_def Let_def well_formed_def list_all_iff less_Suc_eq)
qed

lemma run_st_frame:
  "well_formed s \<Longrightarrow> a < next_ref s \<Longrightarrow> a \<noteq> this_tasks s
     \<Longrightarrow> well_formed (run_st parse cs s) \<and> array_at (run_st parse cs s) a = array_at s a"
proof (induction cs arbitrary: s)
  case Nil
  then show ?case by simp
next
  case (Cons c cs)
  obtain s' r where e: "exec_st parse c s = (s', r)" by (cases "exec_st parse c s")
  from exec_st_frame [OF Cons.prems(1) e] Cons.prems(2,3)
  have "well_formed s'" "a < next_ref s'" "a \<noteq> this_tasks s'" "array_at s' a = array_at s a"
    by auto
  with Cons.IH [of s'] e show ?case by simp
qed

lemma run_st_well_formed: "well_formed s \<Longrightarrow> well_formed (run_st parse cs s)"
proof (induction cs arbitrary: s)
  case Nil
  then show ?case by simp
next
  case (Cons c cs)
  obtain s' r where e: "exec_st parse c s = (s', r)" by (cases "exec_st parse c s")
  from exec_st_frame [OF Cons.prems e] have "well_formed s'" by simp
  with Cons.IH [of s'] e show ?case by simp
qed

subsection \<open>The order of creation\<close>

lemma exec_st_None:
  assumes "exec_st parse c s = (s', None)"
  shows "subseq (array_at s' (this_tasks s')) (array_at s (this_tasks s))"
  using assms
  by (cases c)
    (auto simp: addTask_st_def deleteTask_st_def clearCompleted_st_def getAllTasks_st_def
      toggleTask_st_arrays Let_def split: if_splits)

lemma exec_st_Some:
  assumes "exec_st parse c s = (s', Some r)"
  shows "r = next_ref s \<and> next_ref s' = Suc r
         \<and> array_at s' (this_tasks s') = array_at s (this_tasks s) @ [r]"
  using assms
  by (cases c) (auto simp: addTask_st_def Let_def split: if_splits)

text \<open>
  The tasks are created at increasing references, and the manager's array lists, of
  the tasks it began with and those created since, some, in that order.
\<close>

lemma created_order:
  "well_formed s \<Longrightarrow>
     subseq (array_at (run_st parse cs s) (this_tasks (run_st parse cs s)))
       (array_at s (this_tasks s) @ created parse cs s)
     \<and> sorted_wrt (<) (created parse cs s)
     \<and> list_all (\<lambda>r. next_ref s \<le> r) (created parse cs s)"
proof (induction cs arbitrary: s)
  case Nil
  then show ?case by simp
next
  case (Cons c cs)
  obtain s' r where e: "exec_st parse c s = (s', r)" by (cases "exec_st parse c s")
  from exec_st_frame [OF Cons.prems e]
  have w: "well_formed s'" and mono: "next_ref s \<le> next_ref s'"
    by simp_all
  note ih = Cons.IH [OF w]
  have ge: "list_all (\<lambda>r. next_ref s \<le> r) (created parse cs s')"
    using ih mono by (auto simp: list_all_iff)
  show ?case
  proof (cases r)
    case None
    with e have "subseq (array_at s' (this_tasks s')) (array_at s (this_tasks s))"
      using exec_st_None by blast
    then have "subseq (array_at s' (this_tasks s') @ created parse cs s')
                 (array_at s (this_tasks s) @ created parse cs s')"
      by simp
    with ih have "subseq (array_at (run_st parse cs s') (this_tasks (run_st parse cs s')))
                    (array_at s (this_tasks s) @ created parse cs s')"
      using subseq_order.trans by blast
    then show ?thesis using e None ih ge by simp
  next
    case (Some x)
    with e have x: "x = next_ref s" "next_ref s' = Suc x"
      "array_at s' (this_tasks s') = array_at s (this_tasks s) @ [x]"
      using exec_st_Some by blast+
    have "\<forall>y\<in>set (created parse cs s'). x < y"
      using ih x by (auto simp: list_all_iff)
    then show ?thesis using e Some ih ge x by (simp add: list_all_iff)
  qed
qed

text \<open>
  Claim C9. After any sequence \<open>cs\<close> of calls on a new manager, \<open>getAllTasks\<close> returns an
  array \<open>a\<close> that lists what the manager's array lists, which are tasks in the order of
  their creation: a subsequence of the tasks created, these taken in the order of
  creation. The array is the caller's own: after any further calls \<open>cs'\<close> on the manager
  (add, delete, toggle, clear, further snapshots) it lists the same tasks in the same
  order.
\<close>

theorem getAllTasks_snapshot:
  "(let s = run_st parse cs (new_TaskManager_st h); (a, s1) = getAllTasks_st s in
      array_at s1 a = array_at s (this_tasks s)
      \<and> subseq (array_at s1 a) (created parse cs (new_TaskManager_st h))
      \<and> sorted_wrt (<) (created parse cs (new_TaskManager_st h))
      \<and> array_at (run_st parse cs' s1) a = array_at s1 a)"
proof -
  let ?init = "new_TaskManager_st h"
  let ?s = "run_st parse cs ?init"
  obtain a s1 where g: "getAllTasks_st ?s = (a, s1)" by (cases "getAllTasks_st ?s")
  have w0: "well_formed ?init" by (rule well_formed_new)
  then have w: "well_formed ?s" by (rule run_st_well_formed)
  have e: "exec_st parse GetAllTasks ?s = (s1, None)" using g by simp
  from exec_st_frame [OF w e] have w1: "well_formed s1" by simp
  have a: "a = next_ref ?s" "next_ref s1 = Suc a" "this_tasks s1 = this_tasks ?s"
    "array_at s1 a = array_at ?s (this_tasks ?s)"
    using g by (auto simp: getAllTasks_st_def Let_def)
  have ne: "a \<noteq> this_tasks s1" "a < next_ref s1" using a w by (auto simp: well_formed_def)
  have frozen: "array_at (run_st parse cs' s1) a = array_at s1 a"
    using run_st_frame [OF w1 ne(2) ne(1)] by simp
  have "array_at ?init (this_tasks ?init) = []"
    by (simp add: new_TaskManager_st_def Let_def)
  with created_order [OF w0, of parse cs]
  have ord: "subseq (array_at ?s (this_tasks ?s)) (created parse cs ?init)"
    "sorted_wrt (<) (created parse cs ?init)"
    by simp_all
  show ?thesis using g a(4) ord frozen by (simp add: Let_def)
qed

text \<open>
  The session creates tasks at the references 1, 2 and 5 and deletes the first. The
  snapshot taken then is the array 6 and lists 2 and 5; after an addition, a deletion
  and a clearing it still does, while the manager has gone on to the array 9.
\<close>

lemma session_st:
  "next_ref (run_st parse_none session (new_TaskManager_st empty_store)) = 6"
  "this_tasks (run_st parse_none session (new_TaskManager_st empty_store)) = 3"
  "array_at (run_st parse_none session (new_TaskManager_st empty_store)) 3 = [2, 5]"
  "created parse_none session (new_TaskManager_st empty_store) = [1, 2, 5]"
  by (simp_all add: session_def new_TaskManager_st_def empty_store_def addTask_st_def
      deleteTask_st_def toggleTask_st_def getAllTasks_st_def trim_def isWhiteSpace_def
      ascii_def new_Task_def toggle_def Let_def js_incr_def)

theorem getAllTasks_snapshot_witness:
  "fst (getAllTasks_st (run_st parse_none session (new_TaskManager_st empty_store))) = 6
   \<and> array_at (snd (getAllTasks_st (run_st parse_none session (new_TaskManager_st empty_store)))) 6
       = [2, 5]
   \<and> subseq [2, 5] (created parse_none session (new_TaskManager_st empty_store))
   \<and> array_at
        (run_st parse_none [AddTask (ascii ''d'') JSNull 60, DeleteTask 2, ClearCompleted]
           (snd (getAllTasks_st (run_st parse_none session (new_TaskManager_st empty_store)))))
        6
       = [2, 5]"
proof -
  let ?s = "run_st parse_none session (new_TaskManager_st empty_store)"
  have f: "fst (getAllTasks_st ?s) = 6"
    by (simp add: getAllTasks_st_def Let_def session_st)
  note t = getAllTasks_snapshot [of parse_none session empty_store
      "[AddTask (ascii ''d'') JSNull 60, DeleteTask 2, ClearCompleted]",
      unfolded Let_def case_prod_beta]
  from t f show ?thesis by (simp add: session_st)
qed

subsection \<open>The manager's contents\<close>

text \<open>
  What a state of the store holds for the manager is what the functions on task lists
  compute: every call on the store does to the contents what the call on the list does.
\<close>

lemma toggle_at_found:
  "distinct rs \<Longrightarrow>
     (case find (\<lambda>r. id_t (f r) = i) rs of
        None \<Rightarrow> map f rs
      | Some r \<Rightarrow> map (f(r := toggle (f r))) rs)
     = toggle_found i (map f rs)"
proof (induction rs)
  case Nil
  then show ?case by simp
next
  case (Cons x xs)
  show ?case
  proof (cases "id_t (f x) = i")
    case True
    have "map (f(x := toggle (f x))) xs = map f xs"
      using Cons.prems by (auto intro: map_cong)
    with True show ?thesis by simp
  next
    case False
    show ?thesis
    proof (cases "find (\<lambda>r. id_t (f r) = i) xs")
      case None
      with False Cons show ?thesis by simp
    next
      case (Some r)
      then have "r \<in> set xs" by (auto simp: find_Some_iff)
      with Cons.prems have "r \<noteq> x" by auto
      with False Some Cons show ?thesis by simp
    qed
  qed
qed

lemma contents_toggleTask_st:
  assumes "well_formed s"
  shows "contents (toggleTask_st i s) = toggleTask i (contents s)"
proof -
  have d: "distinct (array_at s (this_tasks s))" using assms by (simp add: well_formed_def)
  show ?thesis
    using toggle_at_found [OF d, of "task_at s" i]
    by (simp add: toggleTask_st_def toggleTask_def contents_def split: option.splits)
qed

lemma contents_addTask_st:
  assumes "well_formed s"
  shows "addTask parse now (contents s) tx dl
         = (case addTask_st parse now s tx dl of
              (Inl e, s') \<Rightarrow> (Inl e, contents s')
            | (Inr r, s') \<Rightarrow> (Inr (task_at s' r), contents s'))"
proof -
  have "next_ref s \<notin> set (array_at s (this_tasks s))"
    using assms by (auto simp: well_formed_def list_all_iff)
  then have "map ((task_at s)(next_ref s := t)) (array_at s (this_tasks s))
             = map (task_at s) (array_at s (this_tasks s))" for t
    by (auto intro: map_cong)
  then show ?thesis
    by (simp add: addTask_st_def addTask_def contents_def Let_def)
qed

lemma contents_deleteTask_st: "contents (deleteTask_st i s) = deleteTask i (contents s)"
  by (simp add: deleteTask_st_def deleteTask_def contents_def Let_def filter_map o_def)

lemma contents_clearCompleted_st: "contents (clearCompleted_st s) = clearCompleted (contents s)"
  by (simp add: clearCompleted_st_def clearCompleted_def contents_def Let_def filter_map o_def)

text \<open>
  For an id that no task of the manager has, \<open>deleteTask\<close> makes a new array that lists
  what the old one lists, and \<open>toggleTask\<close> writes nothing at all.
\<close>

lemma deleteTask_st_absent:
  "i \<notin> id_t ` set (tasks (contents s)) \<Longrightarrow> contents (deleteTask_st i s) = contents s"
  by (simp add: contents_deleteTask_st deleteTask_absent)

lemma toggleTask_st_absent:
  assumes "i \<notin> id_t ` set (tasks (contents s))"
  shows "toggleTask_st i s = s"
proof -
  from assms have "find (\<lambda>r. id_t (task_at s r) = i) (array_at s (this_tasks s)) = None"
    by (auto simp: contents_def find_None_iff)
  then show ?thesis by (simp add: toggleTask_st_def)
qed

text \<open>
  Each \<open>clearCompleted\<close> makes a new array; called twice, the second array lists what
  the first lists.
\<close>

lemma clearCompleted_st_twice:
  "contents (clearCompleted_st (clearCompleted_st s)) = contents (clearCompleted_st s)"
  by (simp add: contents_clearCompleted_st clearCompleted_def)

lemma exec_st_simulates:
  assumes "well_formed s"
  shows "exec parse c (contents s)
         = (contents (fst (exec_st parse c s)),
            map_option (\<lambda>r. id_t (task_at (fst (exec_st parse c s)) r))
              (snd (exec_st parse c s)))"
proof (cases c)
  case (AddTask tx dl now)
  with contents_addTask_st [OF assms, of parse now tx dl] show ?thesis
    by (auto split: prod.splits sum.splits)
next
  case (DeleteTask i)
  then show ?thesis by (simp add: contents_deleteTask_st)
next
  case (ToggleTask i)
  with contents_toggleTask_st [OF assms, of i] show ?thesis by simp
next
  case ClearCompleted
  then show ?thesis by (simp add: contents_clearCompleted_st)
next
  case (GetStats now)
  then show ?thesis by simp
next
  case GetAllTasks
  then show ?thesis by (simp add: getAllTasks_st_def contents_def Let_def)
qed

lemma run_st_simulates:
  "well_formed s \<Longrightarrow> contents (run_st parse cs s) = run parse cs (contents s)"
proof (induction cs arbitrary: s)
  case Nil
  then show ?case by simp
next
  case (Cons c cs)
  obtain s' r where e: "exec_st parse c s = (s', r)" by (cases "exec_st parse c s")
  from exec_st_frame [OF Cons.prems e] have "well_formed s'" by simp
  with Cons.IH [of s'] e exec_st_simulates [OF Cons.prems, of parse c] show ?case by simp
qed

lemma contents_new: "contents (new_TaskManager_st h) = new_TaskManager"
  by (simp add: contents_def new_TaskManager_st_def new_TaskManager_def Let_def)

lemma getStats_st_contents: "getStats_st now s = getStats now (contents s)"
  by (simp add: getStats_st_def getStats_def contents_def Let_def)

text \<open>The tasks that the snapshot refers to are the manager's tasks, in order.\<close>

lemma getAllTasks_st_contents:
  "map (task_at (snd (getAllTasks_st s)))
     (array_at (snd (getAllTasks_st s)) (fst (getAllTasks_st s)))
   = getAllTasks (contents s)"
  by (simp add: getAllTasks_st_def getAllTasks_def contents_def Let_def)

end
